theory Spec2Isabelle
  imports Complex_Main
begin

section \<open>Scaling and normalization notebooks: a shallow embedding\<close>

text \<open>
  The two notebooks are sequences of cells. Three cells contain logic of their own and are
  modelled here: decimal scaling (plain Python), mean subtraction and quantile
  normalization (Python over the array library).

  Conventions of the embedding.
  \<^item> Python integers are \<open>int\<close>. A Python or array float is a \<open>float\<close>: \<open>Some q\<close> for
    the rational \<open>q\<close>, \<open>None\<close> for \<open>nan\<close>. Float arithmetic is exact rational arithmetic:
    rounding and infinities are outside the model.
  \<^item> An exception is a value \<open>Inl e\<close> of the result type \<open>error + 'a\<close>.
  \<^item> The array library's primitives (\<open>np.array\<close>, \<open>rankdata\<close>, \<open>np.mean\<close>, \<open>np.sort\<close>,
    \<open>np.zeros_like\<close>, \<open>np.flip\<close>, column assignment) are not part of the repository. Each
    is modelled by its documented behaviour on the arrays the cells build: one-dimensional
    arrays and two-dimensional arrays given as the list of their rows.
  \<^item> Integer entries are assumed to fit the 64-bit element type the library chooses for
    them; the values the cells store into integer arrays are truncated average ranks,
    which lie between 0 and the number of rows.
\<close>

type_synonym float = "rat option"

datatype error = ValueError | AxisError | IndexError

subsection \<open>Decimal scaling (Data\_Scaling.ipynb)\<close>







subsection \<open>Float primitives\<close>

text \<open>\<open>np.mean\<close> of a one-dimensional float array: \<open>nan\<close> for the empty array (the library
  warns and returns \<open>nan\<close>) and when an element is \<open>nan\<close>.\<close>

definition np_mean :: "float list \<Rightarrow> float" where
  "np_mean xs =
     (if xs = [] \<or> list_ex (\<lambda>v. v = None) xs then None
      else Some (sum_list (map the xs) / of_nat (length xs)))"

fun fsub :: "float \<Rightarrow> float \<Rightarrow> float" where
  "fsub (Some a) (Some b) = Some (a - b)"
| "fsub _ _ = None"

subsection \<open>Mean subtraction\<close>

text \<open>
  \<^verbatim>\<open>
  data = np.array([1, 2, 3, 4, 5])
  mean = np.mean(data)
  normalized_data = data - mean
  \<close>
\<close>

definition normalized_data :: "rat list \<Rightarrow> float list" where
  "normalized_data data =
     (let mean = np_mean (map Some data)
      in map (\<lambda>x. fsub (Some x) mean) data)"

subsection \<open>Arrays\<close>

datatype number = PyInt int | PyFloat rat

datatype dtype = int64 | float64

text \<open>An array is one-dimensional (its elements) or two-dimensional (its rows, all of one
  length). Elements are kept as floats together with the element type; an \<open>int64\<close> array
  holds whole numbers only.\<close>

datatype ndarray = Array1d dtype "float list" | Array2d dtype "float list list"

fun is_PyInt :: "number \<Rightarrow> bool" where
  "is_PyInt (PyInt _) = True"
| "is_PyInt (PyFloat _) = False"

fun num_val :: "number \<Rightarrow> rat" where
  "num_val (PyInt k) = of_int k"
| "num_val (PyFloat q) = q"

text \<open>\<open>np.array\<close> of a nested list literal. The empty list gives a one-dimensional empty
  float array. Rows of unequal length are refused with \<open>ValueError\<close> (library versions
  that still accept them build a one-dimensional array of objects, on which the mean
  along axis 1 below raises as well). The element type is \<open>int64\<close> when there is an
  entry and every entry is an integer, and \<open>float64\<close> otherwise.\<close>

definition np_array :: "number list list \<Rightarrow> error + ndarray" where
  "np_array lit =
     (case lit of
        [] \<Rightarrow> Inr (Array1d float64 [])
      | row # rest \<Rightarrow>
          if list_all (\<lambda>r. length r = length row) rest
          then Inr (Array2d
                 (if row \<noteq> [] \<and> list_all (list_all is_PyInt) lit then int64 else float64)
                 (map (map (\<lambda>x. Some (num_val x))) lit))
          else Inl ValueError)"

definition ncols :: "'a list list \<Rightarrow> nat" where
  "ncols rows = (case rows of [] \<Rightarrow> 0 | row # _ \<Rightarrow> length row)"

fun shape :: "ndarray \<Rightarrow> nat list" where
  "shape (Array1d dt xs) = [length xs]"
| "shape (Array2d dt rows) = [length rows, ncols rows]"

fun dtype_of :: "ndarray \<Rightarrow> dtype" where
  "dtype_of (Array1d dt xs) = dt"
| "dtype_of (Array2d dt rows) = dt"

text \<open>Indexing a tuple or a one-dimensional array at a non-negative position.\<close>

definition py_index :: "'a list \<Rightarrow> nat \<Rightarrow> error + 'a" where
  "py_index xs i = (if i < length xs then Inr (xs ! i) else Inl IndexError)"

text \<open>Applying a one-dimensional operation along axis 0, that is to every column.\<close>

definition columns :: "'a list list \<Rightarrow> 'a list list" where
  "columns rows = map (\<lambda>j. map (\<lambda>row. row ! j) rows) [0..<ncols rows]"

definition from_columns :: "nat \<Rightarrow> 'a list list \<Rightarrow> 'a list list" where
  "from_columns r cols = map (\<lambda>p. map (\<lambda>col. col ! p) cols) [0..<r]"

definition along_axis0 :: "('a list \<Rightarrow> 'b list) \<Rightarrow> 'a list list \<Rightarrow> 'b list list" where
  "along_axis0 f rows = from_columns (length rows) (map f (columns rows))"

subsection \<open>Ranks\<close>

text \<open>\<open>rankdata\<close> with its default method \<open>average\<close>: the array is sorted; a run of \<open>k\<close>
  equal values that starts at position \<open>s\<close> of the sorted array (counted from 1) gets the
  rank \<open>s + (k - 1) / 2\<close>, and every element gets the rank of the run of its value.\<close>

definition rankdata :: "rat list \<Rightarrow> rat list" where
  "rankdata a =
     (let y = sort a
      in map (\<lambda>x. of_nat (length (takeWhile (\<lambda>v. v \<noteq> x) y) + 1)
                   + (of_nat (count_list y x) - 1) / 2) a)"

text \<open>On floats, \<open>nan\<close> is propagated: a slice that holds a \<open>nan\<close> is ranked \<open>nan\<close> throughout.\<close>

definition rankdata_slice :: "float list \<Rightarrow> float list" where
  "rankdata_slice xs =
     (if list_ex (\<lambda>v. v = None) xs then map (\<lambda>_. None) xs
      else map Some (rankdata (map the xs)))"

fun rankdata_axis0 :: "ndarray \<Rightarrow> ndarray" where
  "rankdata_axis0 (Array1d dt xs) = Array1d float64 (rankdata_slice xs)"
| "rankdata_axis0 (Array2d dt rows) = Array2d float64 (along_axis0 rankdata_slice rows)"

text \<open>\<open>np.mean(..., axis=1)\<close>: the mean of every row; a one-dimensional array has no
  axis 1.\<close>

fun np_mean_axis1 :: "ndarray \<Rightarrow> error + float list" where
  "np_mean_axis1 (Array1d dt xs) = Inl AxisError"
| "np_mean_axis1 (Array2d dt rows) = Inr (map np_mean rows)"

subsection \<open>Sorting, allocation, column assignment, flipping\<close>

text \<open>\<open>np.sort\<close> sorts ascending and puts \<open>nan\<close> last.\<close>

definition np_sort :: "float list \<Rightarrow> float list" where
  "np_sort xs = map Some (sort (map the (filter (\<lambda>v. v \<noteq> None) xs))) @ filter (\<lambda>v. v = None) xs"

fun np_sort_axis0 :: "ndarray \<Rightarrow> ndarray" where
  "np_sort_axis0 (Array1d dt xs) = Array1d dt (np_sort xs)"
| "np_sort_axis0 (Array2d dt rows) = Array2d dt (along_axis0 np_sort rows)"

fun np_zeros_like :: "ndarray \<Rightarrow> ndarray" where
  "np_zeros_like (Array1d dt xs) = Array1d dt (map (\<lambda>_. Some 0) xs)"
| "np_zeros_like (Array2d dt rows) = Array2d dt (map (map (\<lambda>_. Some 0)) rows)"

fun np_flip_axis0 :: "ndarray \<Rightarrow> ndarray" where
  "np_flip_axis0 (Array1d dt xs) = Array1d dt (rev xs)"
| "np_flip_axis0 (Array2d dt rows) = Array2d dt (rev rows)"

text \<open>Storing a float into an array converts it to the array's element type: an \<open>int64\<close>
  array keeps the integer part (truncation toward zero), silently. The conversion of \<open>nan\<close>
  is the platform's; the common one gives the least 64-bit integer.\<close>

definition trunc :: "rat \<Rightarrow> int" where
  "trunc q = (if 0 \<le> q then \<lfloor>q\<rfloor> else \<lceil>q\<rceil>)"

fun astype :: "dtype \<Rightarrow> float \<Rightarrow> float" where
  "astype float64 v = v"
| "astype int64 (Some q) = Some (of_int (trunc q))"
| "astype int64 None = Some (- (2 ^ 63))"

text \<open>\<open>a[:, i] = v\<close> for a scalar \<open>v\<close>: every entry of column \<open>i\<close> becomes \<open>v\<close>.\<close>

fun set_column :: "ndarray \<Rightarrow> nat \<Rightarrow> float \<Rightarrow> error + ndarray" where
  "set_column (Array1d dt xs) i v = Inl IndexError"
| "set_column (Array2d dt rows) i v =
     (if i < ncols rows then Inr (Array2d dt (map (\<lambda>row. row[i := astype dt v]) rows))
      else Inl IndexError)"

subsection \<open>Quantile normalization\<close>

text \<open>
  \<^verbatim>\<open>
  data = np.array([[10, 20, 30], [40, 50, 60], [70, 80, 90]])
  reference_distribution = np.mean(rankdata(data, axis=0), axis=1)
  sorted_data = np.sort(data, axis=0)
  quantile_normalized_data = np.zeros_like(sorted_data)
  for i in range(sorted_data.shape[1]):
      quantile_normalized_data[:, i] = reference_distribution[i]
  quantile_normalized_data = np.sort(quantile_normalized_data, axis=0)
  quantile_normalized_data = np.flip(quantile_normalized_data, axis=0)
  \<close>
\<close>

definition reference_distribution :: "ndarray \<Rightarrow> error + float list" where
  "reference_distribution data = np_mean_axis1 (rankdata_axis0 data)"

text \<open>The loop over the column indices; the first exception ends it.\<close>

fun remap_loop :: "float list \<Rightarrow> nat list \<Rightarrow> ndarray \<Rightarrow> error + ndarray" where
  "remap_loop ref [] q = Inr q"
| "remap_loop ref (i # is) q =
     (case py_index ref i of
        Inl e \<Rightarrow> Inl e
      | Inr v \<Rightarrow>
          (case set_column q i v of
             Inl e \<Rightarrow> Inl e
           | Inr q' \<Rightarrow> remap_loop ref is q'))"

definition quantile_normalized_data :: "number list list \<Rightarrow> error + ndarray" where
  "quantile_normalized_data lit =
     (case np_array lit of
        Inl e \<Rightarrow> Inl e
      | Inr data \<Rightarrow>
          (case reference_distribution data of
             Inl e \<Rightarrow> Inl e
           | Inr ref \<Rightarrow>
               let sorted_data = np_sort_axis0 data
               in (case py_index (shape sorted_data) 1 of
                     Inl e \<Rightarrow> Inl e
                   | Inr c \<Rightarrow>
                       (case remap_loop ref [0..<c] (np_zeros_like sorted_data) of
                          Inl e \<Rightarrow> Inl e
                        | Inr q \<Rightarrow> Inr (np_flip_axis0 (np_sort_axis0 q))))))"

text \<open>The table of the notebook's quantile-normalization cell.\<close>

definition sample_data :: "number list list" where
  "sample_data =
     [[PyInt 10, PyInt 20, PyInt 30], [PyInt 40, PyInt 50, PyInt 60], [PyInt 70, PyInt 80, PyInt 90]]"

subsection \<open>The specification's notions\<close>

text \<open>The two definitions of ranks below follow the words of the specification, not the
  code. Its glossary: a rank is the ordinal position of a value within a sorted sequence, ties
  averaged. \<open>ordinal_positions col x\<close> are the positions (from 1) that the entries equal to
  \<open>x\<close> take in the sorted column, \<open>average_rank col x\<close> is their mean.\<close>

definition ordinal_positions :: "rat list \<Rightarrow> rat \<Rightarrow> nat list" where
  "ordinal_positions col x = map fst (filter (\<lambda>(p, v). v = x) (enumerate 1 (sort col)))"

definition average_rank :: "rat list \<Rightarrow> rat \<Rightarrow> rat" where
  "average_rank col x =
     of_nat (sum_list (ordinal_positions col x)) / of_nat (length (ordinal_positions col x))"

text \<open>The column remapper in the words of the specification: the row that holds the \<open>k\<close>-th
  smallest value of a column receives the \<open>k\<close>-th value of the reference distribution. The
  position \<open>k\<close> of an entry is one more than the number of smaller entries of its column.\<close>

definition spec_column_remapper :: "float list \<Rightarrow> rat list list \<Rightarrow> float list list" where
  "spec_column_remapper ref rows =
     map (\<lambda>row. map (\<lambda>j. ref ! length (filter (\<lambda>v. v < row ! j) (map (\<lambda>r. r ! j) rows)))
                  [0..<ncols rows]) rows"

section \<open>Decimal scaling\<close>








section \<open>Mean subtraction\<close>

lemma sum_list_shift:
  "sum_list (map (\<lambda>x. x - m) (xs::rat list)) = sum_list xs - of_nat (length xs) * m"
  by (induction xs) (simp_all add: algebra_simps)

lemma list_ex_map_Some [simp]: "\<not> list_ex (\<lambda>v. v = None) (map (\<lambda>x. Some (f x)) xs)"
  by (induction xs) simp_all

lemma np_mean_Some:
  "xs \<noteq> [] \<Longrightarrow> np_mean (map (\<lambda>x. Some (f x)) xs) = Some (sum_list (map f xs) / of_nat (length xs))"
  by (simp add: np_mean_def comp_def)

lemma normalized_data_nonempty:
  assumes "data \<noteq> []"
  shows "normalized_data data = map (\<lambda>x. Some (x - sum_list data / of_nat (length data))) data"
  using np_mean_Some [OF assms, of "\<lambda>x. x"] by (simp add: normalized_data_def)

text \<open>
  Claim C5, amended. For every non-empty sequence of numbers, the sequence that mean
  subtraction returns has mean exactly 0 (in exact rational arithmetic).
\<close>

theorem mean_subtraction_mean_zero:
  assumes "data \<noteq> []"
  shows "np_mean (normalized_data data) = Some 0"
proof -
  let ?m = "sum_list data / of_nat (length data)"
  have n: "of_nat (length data) \<noteq> (0::rat)" using assms by simp
  have "np_mean (normalized_data data) = Some (sum_list (map (\<lambda>x. x - ?m) data) / of_nat (length data))"
    by (simp only: normalized_data_nonempty [OF assms] np_mean_Some [OF assms])
  also have "sum_list (map (\<lambda>x. x - ?m) data) = 0"
    using n by (simp add: sum_list_shift)
  finally show ?thesis by simp
qed

theorem mean_subtraction_mean_zero_witness:
  "normalized_data [1, 2, 3, 4, 5] = [Some (- 2), Some (- 1), Some 0, Some 1, Some 2] \<and>
   np_mean (normalized_data [1, 2, 3, 4, 5]) = Some 0"
  using mean_subtraction_mean_zero [of "[1, 2, 3, 4, 5]"]
  by (simp add: normalized_data_def np_mean_def)

text \<open>
  The claim as stated covers the empty sequence too. There the mean is \<open>nan\<close>, the
  result is the empty array, and its mean is \<open>nan\<close> again, not 0.
\<close>

theorem mean_subtraction_empty_counterexample:
  "normalized_data [] = [] \<and> np_mean (normalized_data []) = None \<and> np_mean (normalized_data []) \<noteq> Some 0"
  by (simp add: normalized_data_def np_mean_def)

section \<open>Arrays and the column loop\<close>

subsection \<open>Operations along axis 0\<close>

lemma length_from_columns [simp]: "length (from_columns r cols) = r"
  by (simp add: from_columns_def)

lemma nth_from_columns: "p < r \<Longrightarrow> from_columns r cols ! p = map (\<lambda>col. col ! p) cols"
  by (simp add: from_columns_def)

lemma length_columns [simp]: "length (columns rows) = ncols rows"
  by (simp add: columns_def)

lemma length_along_axis0 [simp]: "length (along_axis0 f rows) = length rows"
  by (simp add: along_axis0_def)

lemma nth_along_axis0:
  "p < length rows \<Longrightarrow>
     along_axis0 f rows ! p = map (\<lambda>j. f (map (\<lambda>row. row ! j) rows) ! p) [0..<ncols rows]"
  by (simp add: along_axis0_def nth_from_columns columns_def comp_def)

lemma ncols_nonempty: "rows \<noteq> [] \<Longrightarrow> ncols rows = length (rows ! 0)"
  by (cases rows) (simp_all add: ncols_def)

lemma ncols_along_axis0: "rows \<noteq> [] \<Longrightarrow> ncols (along_axis0 f rows) = ncols rows"
proof -
  assume ne: "rows \<noteq> []"
  then have "along_axis0 f rows \<noteq> []" by (metis length_along_axis0 length_0_conv)
  then have "ncols (along_axis0 f rows) = length (along_axis0 f rows ! 0)"
    by (rule ncols_nonempty)
  also have "\<dots> = ncols rows" using ne by (simp add: nth_along_axis0)
  finally show ?thesis .
qed

lemma ncols_replicate: "0 < r \<Longrightarrow> ncols (replicate r row) = length row"
  by (cases r) (simp_all add: ncols_def)

subsection \<open>Building the array\<close>

lemma np_array_cases:
  assumes "np_array lit = Inr data"
  shows "(lit = [] \<and> data = Array1d float64 []) \<or>
         (lit \<noteq> [] \<and> list_all (\<lambda>r. length r = ncols lit) lit \<and>
          data = Array2d (if 0 < ncols lit \<and> list_all (list_all is_PyInt) lit then int64 else float64)
                   (map (map (\<lambda>x. Some (num_val x))) lit))"
  using assms by (cases lit) (auto simp: np_array_def ncols_def split: if_splits)

lemma np_array_rect:
  assumes "lit \<noteq> []" "list_all (\<lambda>r. length r = ncols lit) lit"
  shows "np_array lit =
     Inr (Array2d (if 0 < ncols lit \<and> list_all (list_all is_PyInt) lit then int64 else float64)
            (map (map (\<lambda>x. Some (num_val x))) lit))"
  using assms by (cases lit) (auto simp: np_array_def ncols_def)

lemma ncols_map_map [simp]: "ncols (map (map f) rows) = ncols rows"
  by (cases rows) (simp_all add: ncols_def)

subsection \<open>The loop over the columns\<close>

lemma set_column_error: "set_column q i v = Inl e \<Longrightarrow> e = IndexError"
  by (cases q) (auto split: if_splits)

lemma remap_loop_error: "remap_loop ref is q = Inl e \<Longrightarrow> e = IndexError"
proof (induction "is" arbitrary: q)
  case Nil
  then show ?case by simp
next
  case (Cons i "is")
  then show ?case
    by (auto simp: py_index_def split: if_splits sum.splits dest: set_column_error)
qed

lemma remap_loop_out_of_range:
  "\<exists>i\<in>set is. length ref \<le> i \<Longrightarrow> \<exists>e. remap_loop ref is q = Inl e"
proof (induction "is" arbitrary: q)
  case Nil
  then show ?case by simp
next
  case (Cons i "is")
  show ?case
  proof (cases "length ref \<le> i")
    case True
    then show ?thesis by (simp add: py_index_def)
  next
    case False
    with Cons.prems have "\<exists>i\<in>set is. length ref \<le> i" by auto
    from Cons.IH [OF this] show ?thesis
      by (auto simp: py_index_def split: sum.splits)
  qed
qed

lemma ncols_update:
  "ncols (map (\<lambda>row. row[i := v]) rows) = ncols rows"
  by (cases rows) (simp_all add: ncols_def)

lemma remap_loop_fold:
  assumes "\<forall>i\<in>set is. i < length ref \<and> i < ncols rows"
  shows "remap_loop ref is (Array2d dt rows) =
     Inr (Array2d dt (map (fold (\<lambda>i row. row[i := astype dt (ref ! i)]) is) rows))"
  using assms
proof (induction "is" arbitrary: rows)
  case Nil
  then show ?case by simp
next
  case (Cons i "is")
  let ?rows = "map (\<lambda>row. row[i := astype dt (ref ! i)]) rows"
  have "\<forall>k\<in>set is. k < length ref \<and> k < ncols ?rows"
    using Cons.prems by (simp add: ncols_update)
  from Cons.IH [OF this] show ?case
    using Cons.prems by (simp add: py_index_def comp_def)
qed

lemma fold_update_length [simp]:
  "length (fold (\<lambda>i row. row[i := f i]) is row) = length row"
  by (induction "is" arbitrary: row) simp_all

lemma fold_update_nth:
  "k < length row \<Longrightarrow>
     fold (\<lambda>i row. row[i := f i]) is row ! k = (if k \<in> set is then f k else row ! k)"
  by (induction "is" arbitrary: row) (auto simp: nth_list_update)

lemma fold_update_all:
  "fold (\<lambda>i row. row[i := f i]) [0..<length row] row = map f [0..<length row]"
  by (rule nth_equalityI) (simp_all add: fold_update_nth)

subsection \<open>Sorting constant columns, and the whole cell\<close>

lemma np_sort_replicate: "np_sort (replicate r v) = replicate r v"
proof (cases v)
  case None
  then show ?thesis by (simp add: np_sort_def)
next
  case (Some q)
  have "sort (replicate r q) = replicate r q"
    by (simp add: sorted_replicate sorted_sort_id)
  then show ?thesis using Some by (simp add: np_sort_def)
qed

lemma along_axis0_replicate:
  "along_axis0 np_sort (replicate r row) = replicate r row"
proof (cases "r = 0")
  case True
  then show ?thesis by (simp add: along_axis0_def from_columns_def)
next
  case False
  then have r: "0 < r" by simp
  show ?thesis
  proof (rule nth_equalityI)
    show "length (along_axis0 np_sort (replicate r row)) = length (replicate r row)" by simp
  next
    fix p assume "p < length (along_axis0 np_sort (replicate r row))"
    then have p: "p < r" by simp
    have "along_axis0 np_sort (replicate r row) ! p
            = map (\<lambda>j. np_sort (replicate r (row ! j)) ! p) [0..<length row]"
      using p r by (simp add: nth_along_axis0 ncols_replicate map_replicate_const)
    also have "\<dots> = map (\<lambda>j. row ! j) [0..<length row]"
      using p by (simp add: np_sort_replicate)
    also have "\<dots> = row" by (rule map_nth)
    finally show "along_axis0 np_sort (replicate r row) ! p = replicate r row ! p"
      using p by simp
  qed
qed

lemma reference_distribution_2d:
  "reference_distribution (Array2d dt rows) = Inr (map np_mean (along_axis0 rankdata_slice rows))"
  by (simp add: reference_distribution_def)

lemma zeros_rows:
  "map (map (\<lambda>_. Some 0)) (along_axis0 f rows) = replicate (length rows) (replicate (ncols rows) (Some (0::rat)))"
  by (rule nth_equalityI) (simp_all add: nth_along_axis0 map_replicate_const)

lemma quantile_2d:
  assumes np: "np_array lit = Inr (Array2d dt rows)"
  shows "quantile_normalized_data lit =
     (if ncols rows \<le> length rows
      then Inr (Array2d dt (replicate (length rows)
             (map (\<lambda>i. astype dt (map np_mean (along_axis0 rankdata_slice rows) ! i)) [0..<ncols rows])))
      else Inl IndexError)"
proof -
  let ?ref = "map np_mean (along_axis0 rankdata_slice rows)"
  let ?r = "length rows" and ?c = "ncols rows"
  let ?Z = "replicate ?r (replicate ?c (Some (0::rat)))"
  have ne: "rows \<noteq> []" using np_array_cases [OF np] by auto
  then have r: "0 < ?r" by simp
  have shape: "py_index (shape (np_sort_axis0 (Array2d dt rows))) (Suc 0) = Inr ?c"
    using ne by (simp add: py_index_def ncols_along_axis0)
  have zeros: "np_zeros_like (np_sort_axis0 (Array2d dt rows)) = Array2d dt ?Z"
    by (simp add: zeros_rows)
  have unfold: "quantile_normalized_data lit =
      (case remap_loop ?ref [0..<?c] (Array2d dt ?Z) of
         Inl e \<Rightarrow> Inl e
       | Inr q \<Rightarrow> Inr (np_flip_axis0 (np_sort_axis0 q)))"
    by (simp add: quantile_normalized_data_def np reference_distribution_2d shape zeros Let_def
        del: np_sort_axis0.simps np_zeros_like.simps shape.simps)
  show ?thesis
  proof (cases "?c \<le> ?r")
    case True
    have "\<forall>i\<in>set [0..<?c]. i < length ?ref \<and> i < ncols ?Z"
      using True r by (simp add: ncols_replicate)
    from remap_loop_fold [OF this, of dt]
    have "remap_loop ?ref [0..<?c] (Array2d dt ?Z) =
        Inr (Array2d dt (replicate ?r (map (\<lambda>i. astype dt (?ref ! i)) [0..<?c])))"
      using fold_update_all [of "\<lambda>i. astype dt (?ref ! i)" "replicate ?c (Some 0)"]
      by simp
    then show ?thesis using True
      by (simp add: unfold along_axis0_replicate)
  next
    case False
    then have "\<exists>i\<in>set [0..<?c]. length ?ref \<le> i" by (auto intro: bexI [of _ ?r])
    from remap_loop_out_of_range [OF this]
    obtain e where e: "remap_loop ?ref [0..<?c] (Array2d dt ?Z) = Inl e" by blast
    then have "e = IndexError" by (rule remap_loop_error)
    then show ?thesis using False e by (simp add: unfold)
  qed
qed

lemma quantile_1d:
  "quantile_normalized_data [] = Inl AxisError"
  by (simp add: quantile_normalized_data_def np_array_def reference_distribution_def)

lemma quantile_ragged:
  "np_array lit = Inl e \<Longrightarrow> quantile_normalized_data lit = Inl e"
  by (simp add: quantile_normalized_data_def)

section \<open>Ranks\<close>

lemma filter_less_sorted_Nil:
  "\<forall>v\<in>set ys. (x::'a::linorder) \<le> v \<Longrightarrow> filter (\<lambda>v. v < x) ys = []"
  by (induction ys) auto

lemma count_list_zero_above:
  "\<forall>v\<in>set ys. (x::'a::linorder) < v \<Longrightarrow> count_list ys x = 0"
  by (induction ys) auto

lemma positions_sorted:
  "sorted y \<Longrightarrow>
     map fst (filter (\<lambda>(p, v). v = x) (enumerate n y)) =
       [n + length (filter (\<lambda>v. v < x) y) ..< n + length (filter (\<lambda>v. v < x) y) + count_list y x]"
proof (induction y arbitrary: n)
  case Nil
  then show ?case by simp
next
  case (Cons a ys)
  then have above: "\<forall>v\<in>set ys. a \<le> v" and srt: "sorted ys" by simp_all
  note IH = Cons.IH [OF srt, of "Suc n"]
  consider (less) "a < x" | (eq) "a = x" | (greater) "x < a" by (metis less_linear)
  then show ?case
  proof cases
    case less
    then show ?thesis using IH by (simp del: upt_Suc)
  next
    case eq
    then have "filter (\<lambda>v. v < x) ys = []" using above by (simp add: filter_less_sorted_Nil)
    then show ?thesis using IH eq by (simp add: upt_conv_Cons del: upt_Suc)
  next
    case greater
    then have "\<forall>v\<in>set ys. x < v" using above by auto
    then have "count_list ys x = 0" and "filter (\<lambda>v. v < x) ys = []"
      by (simp_all add: count_list_zero_above filter_less_sorted_Nil less_imp_le)
    then show ?thesis using IH greater by (simp del: upt_Suc)
  qed
qed

lemma takeWhile_sorted:
  "sorted y \<Longrightarrow> x \<in> set y \<Longrightarrow> takeWhile (\<lambda>v. v \<noteq> x) y = filter (\<lambda>v. v < (x::'a::linorder)) y"
proof (induction y)
  case Nil
  then show ?case by simp
next
  case (Cons a ys)
  then have above: "\<forall>v\<in>set ys. a \<le> v" and srt: "sorted ys" by simp_all
  show ?case
  proof (cases "a = x")
    case True
    then show ?thesis using above by (simp add: filter_less_sorted_Nil)
  next
    case False
    then have "x \<in> set ys" using Cons.prems by simp
    moreover from this above False have "a < x" by fastforce
    ultimately show ?thesis using Cons.IH srt False by simp
  qed
qed

lemma sum_upt_twice:
  "2 * (of_nat (sum_list [m..<m + k]) :: rat) = of_nat k * (2 * of_nat m + of_nat k - 1)"
proof (induction k)
  case 0
  then show ?case by simp
next
  case (Suc k)
  have "[m..<m + Suc k] = [m..<m + k] @ [m + k]" by simp
  then have "2 * (of_nat (sum_list [m..<m + Suc k]) :: rat)
      = 2 * of_nat (sum_list [m..<m + k]) + 2 * of_nat (m + k)"
    by (simp only: sum_list_append of_nat_add sum_list.Cons sum_list.Nil distrib_left add_0_right)
  also have "\<dots> = of_nat (Suc k) * (2 * of_nat m + of_nat (Suc k) - 1)"
    by (simp only: Suc.IH) (simp add: algebra_simps)
  finally show ?case .
qed

lemma mean_upt:
  assumes "0 < k"
  shows "(of_nat (sum_list [m..<m + k]) :: rat) / of_nat k = of_nat m + (of_nat k - 1) / 2"
proof -
  have "(of_nat (sum_list [m..<m + k]) :: rat) = of_nat k * (2 * of_nat m + of_nat k - 1) / 2"
    using sum_upt_twice [of m k] by simp
  then show ?thesis using assms by (simp add: field_simps)
qed

lemma average_rank_closed_form:
  assumes "x \<in> set a"
  shows "average_rank a x =
     of_nat (length (takeWhile (\<lambda>v. v \<noteq> x) (sort a)) + 1) + (of_nat (count_list (sort a) x) - 1) / 2"
proof -
  let ?y = "sort a"
  let ?s = "length (filter (\<lambda>v. v < x) ?y)" and ?k = "count_list ?y x"
  have x: "x \<in> set ?y" using assms by simp
  then have k: "0 < ?k" by (metis count_list_0_iff gr0I)
  have pos: "ordinal_positions a x = [1 + ?s ..< 1 + ?s + ?k]"
    by (simp add: ordinal_positions_def positions_sorted)
  have tw: "length (takeWhile (\<lambda>v. v \<noteq> x) ?y) = ?s"
    using x by (simp add: takeWhile_sorted)
  have "average_rank a x = of_nat (1 + ?s) + (of_nat ?k - 1) / 2"
    unfolding average_rank_def pos using mean_upt [OF k, of "1 + ?s"] by (simp del: upt_Suc)
  then show ?thesis by (simp add: tw)
qed

lemma length_rankdata [simp]: "length (rankdata a) = length a"
  by (simp add: rankdata_def Let_def)

lemma nth_rankdata: "p < length a \<Longrightarrow> rankdata a ! p = average_rank a (a ! p)"
  by (simp add: rankdata_def Let_def average_rank_closed_form)

lemma rankdata_slice_Some:
  "rankdata_slice (map (\<lambda>x. Some (f x)) xs) = map Some (rankdata (map f xs))"
  by (simp add: rankdata_slice_def comp_def)

lemma column_of_literal:
  assumes "list_all (\<lambda>r. length r = ncols lit) lit" "j < ncols lit"
  shows "map (\<lambda>row. row ! j) (map (map (\<lambda>x. Some (num_val x))) lit)
           = map (\<lambda>row. Some (num_val (row ! j))) lit"
  using assms by (simp add: list_all_iff)

lemma rank_row:
  assumes rect: "list_all (\<lambda>r. length r = ncols lit) lit" and p: "p < length lit"
  shows "along_axis0 rankdata_slice (map (map (\<lambda>x. Some (num_val x))) lit) ! p =
     map (\<lambda>j. Some (average_rank (map (\<lambda>row. num_val (row ! j)) lit) (num_val (lit ! p ! j))))
       [0..<ncols lit]"
proof -
  have "rankdata_slice (map (\<lambda>row. row ! j) (map (map (\<lambda>x. Some (num_val x))) lit)) ! p
      = Some (average_rank (map (\<lambda>row. num_val (row ! j)) lit) (num_val (lit ! p ! j)))"
    if "j < ncols lit" for j
    using p by (simp only: column_of_literal [OF rect that] rankdata_slice_Some)
      (simp add: nth_rankdata)
  then show ?thesis using p by (simp add: nth_along_axis0)
qed

text \<open>
  Claim C3. For a rectangular table with \<open>r\<close> rows and at least one column, the reference
  distribution has exactly \<open>r\<close> values, and the value at row position \<open>p\<close> is the
  arithmetic mean, over the columns \<open>j\<close>, of the average rank of the entry at \<open>(p, j)\<close>
  within column \<open>j\<close>.
\<close>

theorem rank_aggregator_row_means:
  assumes "np_array lit = Inr data" and "0 < ncols lit"
  shows "\<exists>ref. reference_distribution data = Inr ref \<and> length ref = length lit \<and>
           (\<forall>p<length lit.
              ref ! p = Some (sum_list (map (\<lambda>j. average_rank (map (\<lambda>row. num_val (row ! j)) lit)
                                                  (num_val (lit ! p ! j))) [0..<ncols lit])
                              / of_nat (ncols lit)))"
proof -
  let ?rows = "map (map (\<lambda>x. Some (num_val x))) lit"
  from assms(2) have ne: "lit \<noteq> []" by (auto simp: ncols_def)
  with np_array_cases [OF assms(1)]
  obtain dt where rect: "list_all (\<lambda>r. length r = ncols lit) lit"
    and data: "data = Array2d dt ?rows" by auto
  have cols: "[0..<ncols lit] \<noteq> []" using assms(2) by simp
  have "map np_mean (along_axis0 rankdata_slice ?rows) ! p
      = Some (sum_list (map (\<lambda>j. average_rank (map (\<lambda>row. num_val (row ! j)) lit)
                                    (num_val (lit ! p ! j))) [0..<ncols lit])
              / of_nat (ncols lit))"
    if "p < length lit" for p
    using that np_mean_Some [OF cols] by (simp add: rank_row [OF rect that])
  then show ?thesis by (simp add: data reference_distribution_2d)
qed

theorem rank_aggregator_row_means_witness:
  "\<exists>ref. reference_distribution
            (Array2d int64 [[Some 5, Some 1], [Some 2, Some 7], [Some 9, Some 4]]) = Inr ref \<and>
         length ref = 3 \<and>
         ref ! 0 = Some ((average_rank [5, 2, 9] 5 + average_rank [1, 7, 4] 1) / 2) \<and>
         average_rank [5, 2, 9] 5 = 2 \<and> average_rank [1, 7, 4] 1 = 1"
proof -
  let ?lit = "[[PyInt 5, PyInt 1], [PyInt 2, PyInt 7], [PyInt 9, PyInt 4]]"
  let ?data = "Array2d int64 [[Some 5, Some 1], [Some 2, Some 7], [Some 9, Some 4]]"
  have np: "np_array ?lit = Inr ?data" by (simp add: np_array_def)
  have c: "0 < ncols ?lit" by (simp add: ncols_def)
  have cols: "[0..<ncols ?lit] = [0, 1]" by (simp add: ncols_def upt_rec)
  from rank_aggregator_row_means [OF np c]
  obtain ref where ref: "reference_distribution ?data = Inr ref" "length ref = length ?lit"
    and each: "\<forall>p<length ?lit.
       ref ! p = Some (sum_list (map (\<lambda>j. average_rank (map (\<lambda>row. num_val (row ! j)) ?lit)
                                           (num_val (?lit ! p ! j))) [0..<ncols ?lit])
                       / of_nat (ncols ?lit))"
    by blast
  have "0 < length ?lit" by simp
  with each have "ref ! 0 = Some (sum_list (map (\<lambda>j. average_rank (map (\<lambda>row. num_val (row ! j)) ?lit)
                                           (num_val (?lit ! 0 ! j))) [0..<ncols ?lit])
                       / of_nat (ncols ?lit))"
    by blast
  then have "ref ! 0 = Some ((average_rank [5, 2, 9] 5 + average_rank [1, 7, 4] 1) / 2)"
    unfolding cols by (simp add: ncols_def)
  moreover have "average_rank [5, 2, 9] 5 = 2" and "average_rank [1, 7, 4] 1 = 1"
    by code_simp+
  ultimately show ?thesis using ref by simp
qed

section \<open>Quantile normalization\<close>


lemma quantile_completes:
  assumes "quantile_normalized_data lit = Inr out"
  obtains dt where "lit \<noteq> []" and "list_all (\<lambda>r. length r = ncols lit) lit"
    and "ncols lit \<le> length lit"
    and "dt = (if 0 < ncols lit \<and> list_all (list_all is_PyInt) lit then int64 else float64)"
    and "np_array lit = Inr (Array2d dt (map (map (\<lambda>x. Some (num_val x))) lit))"
    and "out = Array2d dt (replicate (length lit)
           (map (\<lambda>i. astype dt (map np_mean (along_axis0 rankdata_slice
                                    (map (map (\<lambda>x. Some (num_val x))) lit)) ! i))
              [0..<ncols lit]))"
proof (cases "np_array lit")
  case (Inl e)
  then show ?thesis using assms by (simp add: quantile_ragged)
next
  case (Inr data)
  from np_array_cases [OF Inr] show ?thesis
  proof (elim disjE conjE)
    assume "lit = []"
    then show ?thesis using assms by (simp add: quantile_1d)
  next
    let ?dt = "if 0 < ncols lit \<and> list_all (list_all is_PyInt) lit then int64 else float64"
    let ?rows = "map (map (\<lambda>x. Some (num_val x))) lit"
    assume ne: "lit \<noteq> []" and rect: "list_all (\<lambda>r. length r = ncols lit) lit"
      and data: "data = Array2d ?dt ?rows"
    have np: "np_array lit = Inr (Array2d ?dt ?rows)" using Inr data by simp
    from quantile_2d [OF np] assms
    have "ncols lit \<le> length lit"
      and "out = Array2d ?dt (replicate (length lit)
           (map (\<lambda>i. astype ?dt (map np_mean (along_axis0 rankdata_slice ?rows) ! i))
              [0..<ncols lit]))"
      by (simp_all split: if_splits)
    with ne rect np show ?thesis by (rule_tac that [of ?dt]) simp_all
  qed
qed

text \<open>
  Claim C6. Whenever quantile normalization returns an array, that array has the shape of
  the input array: as many rows and as many columns as the table.
\<close>

theorem quantile_shape_preserved:
  assumes "quantile_normalized_data lit = Inr out"
  shows "\<exists>data. np_array lit = Inr data \<and> shape out = shape data \<and>
           shape out = [length lit, ncols lit]"
proof -
  from assms obtain dt where "lit \<noteq> []"
    and "np_array lit = Inr (Array2d dt (map (map (\<lambda>x. Some (num_val x))) lit))"
    and "out = Array2d dt (replicate (length lit)
           (map (\<lambda>i. astype dt (map np_mean (along_axis0 rankdata_slice
                                    (map (map (\<lambda>x. Some (num_val x))) lit)) ! i))
              [0..<ncols lit]))"
    by (rule quantile_completes)
  then show ?thesis by (simp add: ncols_replicate)
qed

theorem quantile_shape_preserved_witness:
  "\<exists>data. np_array sample_data = Inr data \<and> shape data = [3, 3] \<and>
     shape (Array2d int64 [[Some 1, Some 2, Some 3], [Some 1, Some 2, Some 3], [Some 1, Some 2, Some 3]])
       = shape data"
proof -
  have "quantile_normalized_data sample_data =
      Inr (Array2d int64 [[Some 1, Some 2, Some 3], [Some 1, Some 2, Some 3], [Some 1, Some 2, Some 3]])"
    by code_simp
  from quantile_shape_preserved [OF this]
  obtain data where "np_array sample_data = Inr data"
    and "shape (Array2d int64 [[Some 1, Some 2, Some 3], [Some 1, Some 2, Some 3], [Some 1, Some 2, Some 3]])
           = shape data"
    and "shape (Array2d int64 [[Some 1, Some 2, Some 3], [Some 1, Some 2, Some 3], [Some 1, Some 2, Some 3]])
           = [length sample_data, ncols sample_data]"
    by blast
  then show ?thesis by (auto simp: sample_data_def ncols_def numeral_3_eq_3 dest: sym)
qed

text \<open>
  Claim C9. On a rectangular table with more columns than rows, quantile normalization
  raises \<open>IndexError\<close>: the reference distribution has one value per row and the loop
  reads it at every column index.
\<close>

theorem quantile_rejects_wide_tables:
  assumes "lit \<noteq> []" and "list_all (\<lambda>r. length r = ncols lit) lit"
    and "length lit < ncols lit"
  shows "quantile_normalized_data lit = Inl IndexError"
  using quantile_2d [OF np_array_rect [OF assms(1,2)]] assms(3) by simp

theorem quantile_rejects_wide_tables_witness:
  "quantile_normalized_data [[PyInt 1, PyInt 2]] = Inl IndexError"
  using quantile_rejects_wide_tables [of "[[PyInt 1, PyInt 2]]"] by (simp add: ncols_def)

text \<open>
  Claim C7, amended. Quantile normalization raises whenever the table has no rows
  (\<open>AxisError\<close>, from the mean along axis 1) or is ragged (\<open>ValueError\<close>, from building
  the array).
\<close>

theorem quantile_rejects_no_rows_and_ragged:
  assumes "lit = [] \<or> \<not> list_all (\<lambda>r. length r = ncols lit) lit"
  shows "quantile_normalized_data lit = Inl (if lit = [] then AxisError else ValueError)"
proof (cases lit)
  case Nil
  then show ?thesis by (simp add: quantile_1d)
next
  case (Cons row rest)
  with assms have "\<not> list_all (\<lambda>r. length r = length row) rest" by (simp add: ncols_def)
  then have "np_array lit = Inl ValueError" using Cons by (simp add: np_array_def)
  then show ?thesis using Cons by (simp add: quantile_ragged)
qed

theorem quantile_rejects_no_rows_and_ragged_witness:
  "quantile_normalized_data [] = Inl AxisError \<and>
   quantile_normalized_data [[PyInt 1, PyInt 2], [PyInt 3]] = Inl ValueError"
  using quantile_rejects_no_rows_and_ragged [of "[]"]
    quantile_rejects_no_rows_and_ragged [of "[[PyInt 1, PyInt 2], [PyInt 3]]"]
  by (simp add: ncols_def)

text \<open>
  The claim as stated covers every empty table. A table that has a row and no column is
  empty, and it is not rejected: the loop has nothing to do and an empty array of the same
  shape is returned.
\<close>

theorem quantile_accepts_empty_rows_counterexample:
  "quantile_normalized_data [[]] = Inr (Array2d float64 [[]])"
  by code_simp

text \<open>
  Claim C1, amended. On the notebook's table the result is the printed array: every row
  of it is \<open>[1, 2, 3]\<close>, and so its columns are \<open>[1, 1, 1]\<close>, \<open>[2, 2, 2]\<close> and
  \<open>[3, 3, 3]\<close>.
\<close>

theorem quantile_example_output:
  "quantile_normalized_data sample_data =
     Inr (Array2d int64 [[Some 1, Some 2, Some 3], [Some 1, Some 2, Some 3], [Some 1, Some 2, Some 3]]) \<and>
   columns [[Some 1, Some 2, Some 3], [Some 1, Some 2, Some 3], [Some 1, Some 2, Some (3::rat)]] =
     [[Some 1, Some 1, Some 1], [Some 2, Some 2, Some 2], [Some 3, Some 3, Some 3]]"
  by code_simp

text \<open>
  The claim as stated says that every column of the result is \<open>[1, 2, 3]\<close>. None is.
\<close>

theorem quantile_example_columns_counterexample:
  "\<not> (\<exists>rows. quantile_normalized_data sample_data = Inr (Array2d int64 rows) \<and>
          list_all (\<lambda>col. col = [Some 1, Some 2, Some 3]) (columns rows))"
proof -
  have "quantile_normalized_data sample_data =
      Inr (Array2d int64 [[Some 1, Some 2, Some 3], [Some 1, Some 2, Some 3], [Some 1, Some 2, Some 3]])"
    by code_simp
  moreover have "\<not> list_all (\<lambda>col. col = [Some 1, Some 2, Some 3])
      (columns [[Some 1, Some 2, Some 3], [Some 1, Some 2, Some 3], [Some 1, Some 2, Some (3::rat)]])"
    by code_simp
  ultimately show ?thesis by simp
qed

text \<open>
  Claim C2. The column remapper is to give the row that holds the \<open>k\<close>-th smallest value
  of a column the \<open>k\<close>-th reference value. The cell does not: on the notebook's own table
  the reference distribution is \<open>[1, 2, 3]\<close> and every column is already sorted, so each
  column is to become \<open>[1, 2, 3]\<close>; the cell returns the columns \<open>[1, 1, 1]\<close>,
  \<open>[2, 2, 2]\<close> and \<open>[3, 3, 3]\<close>. The theorem evaluates both at this table.
\<close>

theorem quantile_example_no_order_restoration:
  "np_array sample_data =
     Inr (Array2d int64 [[Some 10, Some 20, Some 30], [Some 40, Some 50, Some 60], [Some 70, Some 80, Some 90]]) \<and>
   reference_distribution
     (Array2d int64 [[Some 10, Some 20, Some 30], [Some 40, Some 50, Some 60], [Some 70, Some 80, Some 90]])
     = Inr [Some 1, Some 2, Some 3] \<and>
   spec_column_remapper [Some 1, Some 2, Some 3] [[10, 20, 30], [40, 50, 60], [70, 80, 90]]
     = [[Some 1, Some 1, Some 1], [Some 2, Some 2, Some 2], [Some 3, Some 3, Some 3]] \<and>
   quantile_normalized_data sample_data
     = Inr (Array2d int64 [[Some 1, Some 2, Some 3], [Some 1, Some 2, Some 3], [Some 1, Some 2, Some 3]]) \<and>
   [[Some 1, Some 2, Some 3], [Some 1, Some 2, Some 3], [Some 1, Some 2, Some (3::rat)]]
     \<noteq> [[Some 1, Some 1, Some 1], [Some 2, Some 2, Some 2], [Some 3, Some 3, Some 3]]"
  by code_simp

text \<open>
  Claim C8, amended. Whenever quantile normalization returns, every column of the result
  is constant: every entry of column \<open>i\<close> is the \<open>i\<close>-th value of the reference
  distribution converted to the element type of the table, which is that value itself for
  a float table and its integer part for an integer table.
\<close>

theorem quantile_columns_constant:
  assumes "quantile_normalized_data lit = Inr out"
  shows "\<exists>data ref rows.
           np_array lit = Inr data \<and> reference_distribution data = Inr ref \<and>
           out = Array2d (dtype_of data) rows \<and> length rows = length lit \<and>
           list_all (\<lambda>row. length row = ncols lit) rows \<and>
           (\<forall>p<length lit. \<forall>i<ncols lit.
              rows ! p ! i = astype (dtype_of data) (ref ! i) \<and>
              (dtype_of data = float64 \<longrightarrow> rows ! p ! i = ref ! i))"
proof -
  let ?rows = "map (map (\<lambda>x. Some (num_val x))) lit"
  let ?ref = "map np_mean (along_axis0 rankdata_slice ?rows)"
  from assms obtain dt where np: "np_array lit = Inr (Array2d dt ?rows)"
    and out: "out = Array2d dt (replicate (length lit)
           (map (\<lambda>i. astype dt (?ref ! i)) [0..<ncols lit]))"
    by (rule quantile_completes)
  let ?out = "replicate (length lit) (map (\<lambda>i. astype dt (?ref ! i)) [0..<ncols lit])"
  have "reference_distribution (Array2d dt ?rows) = Inr ?ref"
    by (rule reference_distribution_2d)
  moreover have "list_all (\<lambda>row. length row = ncols lit) ?out"
    by (simp add: list_all_length)
  moreover have "?out ! p ! i = astype dt (?ref ! i) \<and> (dt = float64 \<longrightarrow> ?out ! p ! i = ?ref ! i)"
    if "p < length lit" "i < ncols lit" for p i
    using that by auto
  ultimately show ?thesis using np out by auto
qed

theorem quantile_columns_constant_witness:
  "\<exists>ref rows.
     reference_distribution (Array2d int64 [[Some 5, Some 1], [Some 2, Some 7], [Some 9, Some 4]])
       = Inr ref \<and>
     quantile_normalized_data [[PyInt 5, PyInt 1], [PyInt 2, PyInt 7], [PyInt 9, PyInt 4]]
       = Inr (Array2d int64 rows) \<and>
     rows ! 0 ! 0 = astype int64 (ref ! 0) \<and> rows ! 1 ! 0 = astype int64 (ref ! 0) \<and>
     rows ! 2 ! 0 = astype int64 (ref ! 0) \<and> rows ! 2 ! 1 = astype int64 (ref ! 1)"
proof -
  let ?lit = "[[PyInt 5, PyInt 1], [PyInt 2, PyInt 7], [PyInt 9, PyInt 4]]"
  let ?data = "Array2d int64 [[Some 5, Some 1], [Some 2, Some 7], [Some 9, Some 4]]"
  have run: "quantile_normalized_data ?lit =
      Inr (Array2d int64 [[Some 1, Some 2], [Some 1, Some 2], [Some 1, Some 2]])"
    by code_simp
  have np: "np_array ?lit = Inr ?data" by code_simp
  from quantile_columns_constant [OF run] np
  obtain ref rows where "reference_distribution ?data = Inr ref"
    and "Array2d int64 [[Some 1, Some 2], [Some 1, Some 2], [Some 1, Some 2]] = Array2d int64 rows"
    and each: "\<forall>p<length ?lit. \<forall>i<ncols ?lit. rows ! p ! i = astype int64 (ref ! i)"
    by auto
  moreover have "rows ! 0 ! 0 = astype int64 (ref ! 0)"
    and "rows ! 1 ! 0 = astype int64 (ref ! 0)"
    and "rows ! 2 ! 0 = astype int64 (ref ! 0)"
    and "rows ! 2 ! 1 = astype int64 (ref ! 1)"
    using each by (simp_all add: ncols_def)
  ultimately show ?thesis using run by auto
qed

text \<open>
  The claim as stated says that the entries equal the reference values. On the integer
  table \<open>[[1, 2], [2, 1]]\<close> both reference values are \<open>3 / 2\<close> and every entry of the
  result is 1.
\<close>

theorem quantile_columns_untruncated_counterexample:
  "np_array [[PyInt 1, PyInt 2], [PyInt 2, PyInt 1]]
     = Inr (Array2d int64 [[Some 1, Some 2], [Some 2, Some 1]]) \<and>
   reference_distribution (Array2d int64 [[Some 1, Some 2], [Some 2, Some 1]])
     = Inr [Some (3 / 2), Some (3 / 2)] \<and>
   quantile_normalized_data [[PyInt 1, PyInt 2], [PyInt 2, PyInt 1]]
     = Inr (Array2d int64 [[Some 1, Some 1], [Some 1, Some 1]]) \<and>
   [[Some 1, Some 1], [Some 1, Some (1::rat)]] ! 0 ! 0 \<noteq> [Some (3 / 2), Some (3 / 2)] ! 0"
  by code_simp



end
